theory Spec2Isabelle
  imports Complex_Main "HOL-Library.Sublist"
begin

section \<open>PHP composer manifests: the mapping of \<^verbatim>\<open>composer.json\<close> to a package record\<close>

text \<open>
  A shallow embedding of \<^verbatim>\<open>src/packagedcode/phpcomposer.py\<close>. The module is Python 2
  (\<^verbatim>\<open>basestring\<close>): every string that \<^verbatim>\<open>json.load\<close> decodes is a \<^verbatim>\<open>unicode\<close> object.
  Strings are modelled as \<^typ>\<open>string\<close>, one \<^typ>\<open>char\<close> per code point, which covers the code
  points below 256. Mutation of the package object is explicit state passing, and every
  exception is a value \<open>Inl e\<close> of the result.
\<close>

subsection \<open>Python values and exceptions\<close>

text \<open>
  The values \<^verbatim>\<open>json.load(loc, object_pairs_hook=OrderedDict)\<close> produces. \<open>JNull\<close> is
  \<^verbatim>\<open>None\<close>. \<open>JObj\<close> holds the key/value pairs of a JSON object in document order, as the
  decoder hands them to \<^verbatim>\<open>OrderedDict\<close>; a key may occur twice there. A finite float is
  the real number it denotes.
\<close>

datatype json =
    JNull
  | JBool bool
  | JInt int
  | JFloat real
  | JStr string
  | JList "json list"
  | JObj "(string \<times> json) list"

datatype error =
    AttributeError
  | ValueError
  | KeyError string
  | UnicodeDecodeError
  | IOError
  | Exception string

text \<open>Truth value of a Python object, as \<^verbatim>\<open>if value:\<close> and \<^verbatim>\<open>not value\<close> test it.\<close>

fun truthy :: "json \<Rightarrow> bool" where
  "truthy JNull = False"
| "truthy (JBool b) = b"
| "truthy (JInt i) = (i \<noteq> 0)"
| "truthy (JFloat r) = (r \<noteq> 0)"
| "truthy (JStr s) = (s \<noteq> [])"
| "truthy (JList xs) = (xs \<noteq> [])"
| "truthy (JObj kvs) = (kvs \<noteq> [])"

subsection \<open>Ordered dictionaries\<close>

text \<open>
  \<^verbatim>\<open>OrderedDict(pairs)\<close> stores the pairs one by one: a key seen before keeps its position
  and takes the new value, a new key goes to the end.
\<close>

fun od_setitem :: "(string \<times> 'v) list \<Rightarrow> string \<Rightarrow> 'v \<Rightarrow> (string \<times> 'v) list" where
  "od_setitem [] k v = [(k, v)]"
| "od_setitem ((k', v') # od) k v =
     (if k' = k then (k, v) # od else (k', v') # od_setitem od k v)"

definition OrderedDict :: "(string \<times> 'v) list \<Rightarrow> (string \<times> 'v) list" where
  "OrderedDict pairs = foldl (\<lambda>od (k, v). od_setitem od k v) [] pairs"

text \<open>\<^verbatim>\<open>d.get(key)\<close>: the value stored under the key, \<^verbatim>\<open>None\<close> when there is none.\<close>

definition od_get :: "(string \<times> json) list \<Rightarrow> string \<Rightarrow> json" where
  "od_get pairs k = (case map_of (OrderedDict pairs) k of None \<Rightarrow> JNull | Some v \<Rightarrow> v)"

subsection \<open>String methods\<close>

text \<open>\<^verbatim>\<open>s.startswith(p)\<close>, and \<^verbatim>\<open>s.startswith(ps)\<close> for a tuple of prefixes.\<close>

definition startswith :: "string \<Rightarrow> string \<Rightarrow> bool" where
  "startswith s p = prefix p s"

definition startswith_any :: "string \<Rightarrow> string list \<Rightarrow> bool" where
  "startswith_any s ps = list_ex (startswith s) ps"

text \<open>\<^verbatim>\<open>h in s\<close> for strings: \<open>h\<close> occurs in \<open>s\<close> as a contiguous run.\<close>

fun py_in :: "string \<Rightarrow> string \<Rightarrow> bool" where
  "py_in h [] = (h = [])"
| "py_in h (c # cs) = (prefix h (c # cs) \<or> py_in h cs)"

text \<open>
  \<^verbatim>\<open>s.split(c, 1)\<close> for a one-character separator: one piece when \<open>c\<close> does not occur,
  otherwise the text before the first \<open>c\<close> and the text after it.
\<close>

definition split1 :: "char \<Rightarrow> string \<Rightarrow> string list" where
  "split1 c s =
     (case dropWhile (\<lambda>x. x \<noteq> c) s of
        [] \<Rightarrow> [s]
      | _ # rest \<Rightarrow> [takeWhile (\<lambda>x. x \<noteq> c) s, rest])"

text \<open>
  \<^verbatim>\<open>s.split(c)\<close>: all the pieces between occurrences of \<open>c\<close>. A character other
  than \<open>c\<close> joins the first piece of the rest; the rest always has a first piece.
\<close>

fun split_chr :: "char \<Rightarrow> string \<Rightarrow> string list" where
  "split_chr c [] = [[]]"
| "split_chr c (x # xs) =
     (if x = c then [] # split_chr c xs
      else (case split_chr c xs of
              [] \<Rightarrow> [[x]]
            | w # ws \<Rightarrow> (x # w) # ws))"

text \<open>
  \<^verbatim>\<open>s.strip()\<close> on a \<^verbatim>\<open>unicode\<close> object removes leading and trailing characters that
  \<^verbatim>\<open>isspace()\<close> accepts; below 256 these are the code points listed. \<^verbatim>\<open>s.strip(chars)\<close>
  removes the characters of \<open>chars\<close> instead.
\<close>

definition py_isspace :: "char \<Rightarrow> bool" where
  "py_isspace c = ((of_char c :: nat) \<in> {9, 10, 11, 12, 13, 28, 29, 30, 31, 32, 133, 160})"

definition strip_with :: "(char \<Rightarrow> bool) \<Rightarrow> string \<Rightarrow> string" where
  "strip_with P s = rev (dropWhile P (rev (dropWhile P s)))"

definition strip :: "string \<Rightarrow> string" where
  "strip s = strip_with py_isspace s"

definition strip_chars :: "string \<Rightarrow> string \<Rightarrow> string" where
  "strip_chars chars s = strip_with (\<lambda>c. c \<in> set chars) s"

text \<open>\<^verbatim>\<open>s.lower()\<close> on the ASCII letters.\<close>

definition lower_chr :: "char \<Rightarrow> char" where
  "lower_chr c =
     (if 65 \<le> (of_char c :: nat) \<and> (of_char c :: nat) \<le> 90
      then char_of ((of_char c :: nat) + 32) else c)"

definition lower :: "string \<Rightarrow> string" where
  "lower s = map lower_chr s"

text \<open>
  \<^verbatim>\<open>template % locals()\<close> for a template made of a fixed text followed by one
  \<^verbatim>\<open>%(key)r\<close> or \<^verbatim>\<open>%(key)s\<close> field: a key that is not a local name raises \<^verbatim>\<open>KeyError\<close>.
  The locals are given with their values already rendered.
\<close>

definition format_locals :: "string \<Rightarrow> string \<Rightarrow> (string \<times> string) list \<Rightarrow> error + string" where
  "format_locals text key locals =
     (case map_of locals key of
        None \<Rightarrow> Inl (KeyError key)
      | Some rendered \<Rightarrow> Inr (text @ rendered))"

subsection \<open>The package model\<close>

text \<open>
  Modelled from the spec: \<^verbatim>\<open>packagedcode.models\<close> is not part of the sources at hand. The
  spec lists the attribute slots of the package record, a party of kind person with a
  name, an email and a url, a license assertion holding one expression, and the two
  dependency kinds runtime and dev. Attributes that receive a manifest value hold any
  Python value, since \<^verbatim>\<open>setattr\<close> stores it unchecked. The attribute \<^verbatim>\<open>keywords\<close>
  is the field \<open>keywords_attr\<close>.
\<close>

datatype party_type = party_person

text \<open>\<^verbatim>\<open>Party(type, name, email, url)\<close>, \<^verbatim>\<open>Dependency(name, version_constraint)\<close>.\<close>

datatype party = Party party_type json json json

datatype dependency = Dependency string json

datatype asserted_license = AssertedLicense string

datatype dep_type = dep_runtime | dep_dev

record package =
  location :: "string option"
  metafile_locations :: "string list"
  version :: json
  name :: json
  summary :: json
  keywords_attr :: json
  homepage_url :: json
  authors :: "party list"
  asserted_licenses :: "asserted_license list"
  dependencies :: "dep_type \<rightharpoonup> dependency list"
  vcs_tool :: "string option"
  vcs_repository :: "string option"
  support_contacts :: "json list"
  bug_tracking_url :: json
  code_view_url :: json

subsection \<open>Repository URL resolution\<close>

definition VCS_URLS :: "string list" where
  "VCS_URLS =
     [''https://'', ''http://'', ''git://'', ''git+git://'', ''hg+https://'', ''hg+http://'',
      ''git+https://'', ''git+http://'', ''svn+https://'', ''svn+http://'', ''svn://'']"

text \<open>
  The table \<^verbatim>\<open>hoster_urls\<close>: each template is a base followed by \<^verbatim>\<open>%(repo)s\<close>, so the
  table keeps the base. Its keys end with the colon.
\<close>

definition hoster_urls :: "(string \<times> string) list" where
  "hoster_urls =
     [(''bitbucket:'', ''https://bitbucket.org/''),
      (''github:'', ''https://github.com/''),
      (''gitlab:'', ''https://gitlab.com/'')]"

definition parse_repo_url :: "string \<Rightarrow> error + string" where
  "parse_repo_url repo_url =
     (if startswith_any repo_url VCS_URLS then Inr repo_url
      else if startswith repo_url ''git@'' then
        (case split1 (CHR ''@'') repo_url of
           [left, right] \<Rightarrow>
             (case split1 (CHR '':'') right of
                [host, repo] \<Rightarrow>
                  if list_ex (\<lambda>h. py_in h host) [''github'', ''bitbucket'', ''gitlab'']
                  then Inr (''https://'' @ host @ ''/'' @ repo)
                  else Inr repo_url
              | _ \<Rightarrow> Inl ValueError)
         | _ \<Rightarrow> Inl ValueError)
      else if startswith repo_url ''gist:'' then Inr repo_url
      else if startswith_any repo_url [''bitbucket:'', ''gitlab:'', ''github:''] then
        (case split1 (CHR '':'') repo_url of
           [hoster, repo] \<Rightarrow>
             (case map_of hoster_urls hoster of
                None \<Rightarrow> Inl (KeyError hoster)
              | Some base \<Rightarrow> Inr (base @ repo))
         | _ \<Rightarrow> Inl ValueError)
      else if length (split_chr (CHR ''/'') repo_url) = 2
        then Inr (''https://github.com/'' @ repo_url)
      else Inr repo_url)"

subsection \<open>The license mapper\<close>

text \<open>
  \<^verbatim>\<open>repr\<close> is Python's built-in textual representation; the mappers take it as the
  parameter \<open>repr\<close>. The loop over the list appends to \<^verbatim>\<open>package.asserted_licenses\<close>.
\<close>

fun licenses_loop :: "(json \<Rightarrow> string) \<Rightarrow> json list \<Rightarrow> package \<Rightarrow> package" where
  "licenses_loop repr [] package = package"
| "licenses_loop repr (lic # licenses) package =
     licenses_loop repr licenses
       (case lic of
          JStr s \<Rightarrow> package\<lparr>asserted_licenses := asserted_licenses package @ [AssertedLicense s]\<rparr>
        | _ \<Rightarrow>
            if truthy lic
            then package\<lparr>asserted_licenses :=
                   asserted_licenses package @ [AssertedLicense (repr lic)]\<rparr>
            else package)"

definition licensing_mapper :: "(json \<Rightarrow> string) \<Rightarrow> json \<Rightarrow> package \<Rightarrow> error + package" where
  "licensing_mapper repr licenses package =
     (if \<not> truthy licenses then Inr package
      else case licenses of
          JStr s \<Rightarrow>
            Inr (package\<lparr>asserted_licenses := asserted_licenses package @ [AssertedLicense s]\<rparr>)
        | JList ls \<Rightarrow> Inr (licenses_loop repr ls package)
        | _ \<Rightarrow>
            Inr (package\<lparr>asserted_licenses :=
                   asserted_licenses package @ [AssertedLicense (repr licenses)]\<rparr>))"

subsection \<open>The author mapper\<close>

text \<open>
  \<^verbatim>\<open>x and x.strip(...)\<close>: a falsy \<open>x\<close> is the result itself; a truthy string is stripped;
  any other truthy value has no \<^verbatim>\<open>strip\<close> method.
\<close>

definition and_strip :: "(string \<Rightarrow> string) \<Rightarrow> json \<Rightarrow> error + json" where
  "and_strip f x =
     (if \<not> truthy x then Inr x
      else case x of JStr s \<Rightarrow> Inr (JStr (f s)) | _ \<Rightarrow> Inl AttributeError)"

text \<open>
  The tuple one person yields. \<^verbatim>\<open>person.get\<close> exists on a dictionary only. The three
  \<^verbatim>\<open>get\<close> calls come first, then the tuple is built from left to right.
\<close>

definition person_tuple :: "json \<Rightarrow> error + (json \<times> json \<times> json)" where
  "person_tuple person =
     (case person of
        JObj p \<Rightarrow>
          (case and_strip strip (od_get p ''name'') of
             Inl e \<Rightarrow> Inl e
           | Inr n \<Rightarrow>
               (case and_strip (strip_chars ''<> '') (od_get p ''email'') of
                  Inl e \<Rightarrow> Inl e
                | Inr m \<Rightarrow>
                    (case and_strip (strip_chars ''() '') (od_get p ''homepage'') of
                       Inl e \<Rightarrow> Inl e
                     | Inr u \<Rightarrow> Inr (n, m, u))))
      | _ \<Rightarrow> Inl AttributeError)"

fun persons_loop :: "json list \<Rightarrow> error + (json \<times> json \<times> json) list" where
  "persons_loop [] = Inr []"
| "persons_loop (person # persons) =
     (case person_tuple person of
        Inl e \<Rightarrow> Inl e
      | Inr t \<Rightarrow> (case persons_loop persons of Inl e \<Rightarrow> Inl e | Inr ts \<Rightarrow> Inr (t # ts)))"

text \<open>
  The generator, run to its end. In the \<^verbatim>\<open>else\<close> branch the only local name is the
  parameter \<^verbatim>\<open>persons\<close>, and the message is formatted before \<^verbatim>\<open>Exception\<close> is built.
\<close>

definition parse_person :: "(json \<Rightarrow> string) \<Rightarrow> json \<Rightarrow> error + (json \<times> json \<times> json) list" where
  "parse_person repr persons =
     (case persons of
        JList ps \<Rightarrow> persons_loop ps
      | _ \<Rightarrow>
          (case format_locals ''Incorrect PHP composer composer.json person: '' ''person''
                  [(''persons'', repr persons)] of
             Inl e \<Rightarrow> Inl e
           | Inr msg \<Rightarrow> Inl (Exception msg)))"

definition author_mapper :: "(json \<Rightarrow> string) \<Rightarrow> json \<Rightarrow> package \<Rightarrow> error + package" where
  "author_mapper repr authors_content package =
     (case parse_person repr authors_content of
        Inl e \<Rightarrow> Inl e
      | Inr ts \<Rightarrow>
          Inr (package\<lparr>authors := map (\<lambda>(n, m, u). Party party_person n m u) ts\<rparr>))"

subsection \<open>The support mapper\<close>

definition support_mapper :: "json \<Rightarrow> package \<Rightarrow> error + package" where
  "support_mapper support package =
     (case support of
        JObj s \<Rightarrow>
          Inr (package\<lparr>support_contacts := [od_get s ''email''],
                       bug_tracking_url := od_get s ''issues'',
                       code_view_url := od_get s ''source''\<rparr>)
      | _ \<Rightarrow> Inl AttributeError)"

subsection \<open>The repository mapper\<close>

definition vcs_tool_of :: "string \<Rightarrow> string" where
  "vcs_tool_of repo_url =
     (if startswith repo_url ''svn'' then ''svn''
      else if startswith repo_url ''hg'' then ''hg''
      else if startswith repo_url ''cvs'' then ''cvs''
      else ''git'')"

fun repos_loop :: "json list \<Rightarrow> package \<Rightarrow> error + package" where
  "repos_loop [] package = Inr package"
| "repos_loop (repo # repos) package =
     (case repo of
        JObj r \<Rightarrow>
          if od_get r ''type'' = JStr ''vcs'' then
            (case od_get r ''url'' of
               JStr repo_url \<Rightarrow>
                 (case parse_repo_url repo_url of
                    Inl e \<Rightarrow> Inl e
                  | Inr resolved \<Rightarrow>
                      repos_loop repos
                        (package\<lparr>vcs_tool := Some (vcs_tool_of repo_url),
                                 vcs_repository := Some resolved\<rparr>))
             | _ \<Rightarrow> Inl AttributeError)
          else repos_loop repos package
      | _ \<Rightarrow> Inl AttributeError)"

definition repository_mapper :: "json \<Rightarrow> package \<Rightarrow> error + package" where
  "repository_mapper repos package =
     (if \<not> truthy repos then Inr package
      else case repos of
          JStr s \<Rightarrow>
            (case parse_repo_url s of
               Inl e \<Rightarrow> Inl e
             | Inr resolved \<Rightarrow> Inr (package\<lparr>vcs_repository := Some resolved\<rparr>))
        | JList rs \<Rightarrow> repos_loop rs package
        | _ \<Rightarrow> Inr package)"

subsection \<open>The dependency mapper\<close>

definition dep_types :: "(string \<times> dep_type) list" where
  "dep_types = [(''dependencies'', dep_runtime), (''devDependencies'', dep_dev)]"

text \<open>The batch built from \<^verbatim>\<open>deps.items()\<close>, in the order of the dictionary.\<close>

definition deps_batch :: "(string \<times> json) list \<Rightarrow> dependency list" where
  "deps_batch deps = map (\<lambda>(n, version_constraint). Dependency n version_constraint) (OrderedDict deps)"

definition deps_mapper :: "json \<Rightarrow> package \<Rightarrow> string \<Rightarrow> error + package" where
  "deps_mapper deps package field_name =
     (case map_of dep_types field_name of
        None \<Rightarrow> Inl (KeyError field_name)
      | Some resolved_type \<Rightarrow>
          (case deps of
             JObj d \<Rightarrow>
               (case dependencies package resolved_type of
                  Some existing \<Rightarrow>
                    Inr (package\<lparr>dependencies :=
                           (dependencies package)(resolved_type \<mapsto> existing @ deps_batch d)\<rparr>)
                | None \<Rightarrow>
                    Inr (package\<lparr>dependencies :=
                           (dependencies package)(resolved_type \<mapsto> deps_batch d)\<rparr>))
           | _ \<Rightarrow> Inl AttributeError))"

definition dependencies_mapper :: "json \<Rightarrow> package \<Rightarrow> error + package" where
  "dependencies_mapper deps package = deps_mapper deps package ''dependencies''"

definition dev_dependencies_mapper :: "json \<Rightarrow> package \<Rightarrow> error + package" where
  "dev_dependencies_mapper deps package = deps_mapper deps package ''devDependencies''"

subsection \<open>The parse entry point\<close>

text \<open>
  What \<^verbatim>\<open>parse\<close> takes from outside the module: the file predicates of
  \<^verbatim>\<open>commoncode\<close>, the decoding of the file (\<^verbatim>\<open>codecs.open\<close> with \<^verbatim>\<open>json.load\<close>, which
  raises on content that is not UTF-8 or not JSON), and the freshly constructed
  \<^verbatim>\<open>PHPComposerPackage()\<close>.
\<close>

record env =
  is_file :: "string \<Rightarrow> bool"
  file_name :: "string \<Rightarrow> string"
  parent_directory :: "string \<Rightarrow> string"
  json_load :: "string \<Rightarrow> error + json"
  PHPComposerPackage :: package

definition is_phpcomposer_json :: "env \<Rightarrow> string \<Rightarrow> bool" where
  "is_phpcomposer_json E loc =
     (is_file E loc \<and> lower (file_name E loc) = ''composer.json'')"

definition plain_fields :: "(string \<times> string) list" where
  "plain_fields =
     [(''name'', ''name''),
      (''description'', ''summary''),
      (''keywords'', ''keywords''),
      (''version'', ''version''),
      (''homepage'', ''homepage_url'')]"

text \<open>\<^verbatim>\<open>setattr(package, target, value)\<close> for the targets of \<open>plain_fields\<close>.\<close>

definition setattr :: "package \<Rightarrow> string \<Rightarrow> json \<Rightarrow> package" where
  "setattr package target v =
     (if target = ''name'' then package\<lparr>name := v\<rparr>
      else if target = ''summary'' then package\<lparr>summary := v\<rparr>
      else if target = ''keywords'' then package\<lparr>keywords_attr := v\<rparr>
      else if target = ''version'' then package\<lparr>version := v\<rparr>
      else if target = ''homepage_url'' then package\<lparr>homepage_url := v\<rparr>
      else package)"

text \<open>\<^verbatim>\<open>if isinstance(value, basestring): value = value.strip()\<close>\<close>

definition strip_if_string :: "json \<Rightarrow> json" where
  "strip_if_string v = (case v of JStr s \<Rightarrow> JStr (strip s) | _ \<Rightarrow> v)"

fun plain_loop :: "(string \<times> string) list \<Rightarrow> (string \<times> json) list \<Rightarrow> package \<Rightarrow> package" where
  "plain_loop [] data package = package"
| "plain_loop ((source, target) # rest) data package =
     plain_loop rest data
       (if truthy (od_get data source) \<and> truthy (strip_if_string (od_get data source))
        then setattr package target (strip_if_string (od_get data source))
        else package)"

definition field_mappers ::
    "(json \<Rightarrow> string) \<Rightarrow> (string \<times> (json \<Rightarrow> package \<Rightarrow> error + package)) list" where
  "field_mappers repr =
     [(''authors'', author_mapper repr),
      (''license'', licensing_mapper repr),
      (''require'', dependencies_mapper),
      (''require-dev'', dev_dependencies_mapper),
      (''repositories'', repository_mapper),
      (''support'', support_mapper)]"

fun mappers_loop ::
    "(string \<times> (json \<Rightarrow> package \<Rightarrow> error + package)) list \<Rightarrow> (string \<times> json) list \<Rightarrow>
     package \<Rightarrow> error + package" where
  "mappers_loop [] data package = Inr package"
| "mappers_loop ((source, func) # mappers) data package =
     (if truthy (od_get data source) \<and> truthy (strip_if_string (od_get data source))
      then (case func (strip_if_string (od_get data source)) package of
              Inl e \<Rightarrow> Inl e
            | Inr package' \<Rightarrow> mappers_loop mappers data package')
      else mappers_loop mappers data package)"

text \<open>
  The result is \<open>Inr None\<close> for \<^verbatim>\<open>return\<close> without a value, \<open>Inr (Some package)\<close> for the
  package, \<open>Inl e\<close> for an exception. \<^verbatim>\<open>data.get\<close> needs a dictionary at the top level.
\<close>

definition parse :: "env \<Rightarrow> (json \<Rightarrow> string) \<Rightarrow> string \<Rightarrow> error + package option" where
  "parse E repr loc =
     (if \<not> is_phpcomposer_json E loc then Inr None
      else case json_load E loc of
          Inl e \<Rightarrow> Inl e
        | Inr (JObj data) \<Rightarrow>
            if \<not> truthy (od_get data ''name'') \<or> \<not> truthy (od_get data ''description'')
            then Inr None
            else
              (case mappers_loop (field_mappers repr) data
                      (plain_loop plain_fields data
                         ((PHPComposerPackage E)
                            \<lparr>location := Some (parent_directory E loc),
                             metafile_locations := [loc],
                             version := od_get data ''version''\<rparr>)) of
                 Inl e \<Rightarrow> Inl e
               | Inr package \<Rightarrow> Inr (Some package))
        | Inr _ \<Rightarrow> Inl AttributeError)"

subsection \<open>Values for the concrete examples\<close>

text \<open>
  A package with nothing set, a stand-in for \<^verbatim>\<open>repr\<close>, and an environment in which
  every path is a file named by itself whose decoding gives the result \<open>loaded\<close>. The
  general theorems hold for every package, every \<open>repr\<close> and every environment.
\<close>

definition blank_package :: package where
  "blank_package =
     \<lparr>location = None, metafile_locations = [], version = JNull, name = JNull,
      summary = JNull, keywords_attr = JNull, homepage_url = JNull, authors = [],
      asserted_licenses = [], dependencies = Map.empty, vcs_tool = None,
      vcs_repository = None, support_contacts = [], bug_tracking_url = JNull,
      code_view_url = JNull\<rparr>"

definition sample_repr :: "json \<Rightarrow> string" where
  "sample_repr v = ''<repr>''"

definition sample_env :: "error + json \<Rightarrow> env" where
  "sample_env loaded =
     \<lparr>is_file = (\<lambda>p. True), file_name = (\<lambda>p. p), parent_directory = (\<lambda>p. []),
      json_load = (\<lambda>p. loaded), PHPComposerPackage = blank_package\<rparr>"

subsection \<open>Vocabulary of the statements\<close>

text \<open>
  The type tests \<^verbatim>\<open>isinstance(v, basestring)\<close>, \<^verbatim>\<open>isinstance(v, list)\<close> and the test for a
  dictionary; for a repository descriptor, \<^verbatim>\<open>repo.get('type') == 'vcs'\<close> and
  \<^verbatim>\<open>repo.get('url')\<close>.
\<close>

definition is_string :: "json \<Rightarrow> bool" where
  "is_string v = (case v of JStr _ \<Rightarrow> True | _ \<Rightarrow> False)"

definition is_list :: "json \<Rightarrow> bool" where
  "is_list v = (case v of JList _ \<Rightarrow> True | _ \<Rightarrow> False)"

definition is_object :: "json \<Rightarrow> bool" where
  "is_object v = (case v of JObj _ \<Rightarrow> True | _ \<Rightarrow> False)"

definition is_vcs_descriptor :: "json \<Rightarrow> bool" where
  "is_vcs_descriptor d = (case d of JObj r \<Rightarrow> od_get r ''type'' = JStr ''vcs'' | _ \<Rightarrow> False)"

definition descriptor_url :: "json \<Rightarrow> json" where
  "descriptor_url d = (case d of JObj r \<Rightarrow> od_get r ''url'' | _ \<Rightarrow> JNull)"

text \<open>
  The assertions the spec gives one element of a license list: a string verbatim, any
  other non-empty value by its textual representation, an empty value nothing.
\<close>

definition element_assertions :: "(json \<Rightarrow> string) \<Rightarrow> json \<Rightarrow> asserted_license list" where
  "element_assertions repr lic =
     (case lic of
        JStr s \<Rightarrow> [AssertedLicense s]
      | _ \<Rightarrow> if truthy lic then [AssertedLicense (repr lic)] else [])"

text \<open>A list of repository descriptors as the composer documentation shows them.\<close>

definition sample_repos :: "json list" where
  "sample_repos =
     [JObj [(''type'', JStr ''vcs''), (''url'', JStr ''https://github.com/Seldaek/monolog'')],
      JObj [(''type'', JStr ''vcs''), (''url'', JStr ''svn://example.org/project'')],
      JObj [(''type'', JStr ''composer''), (''url'', JStr ''http://packages.example.com'')]]"

section \<open>Properties\<close>

subsection \<open>Strings\<close>

lemma startswith_Nil [simp]: "startswith s []"
  by (simp add: startswith_def)

lemma startswith_Cons [simp]:
  "startswith s (c # p) = (case s of [] \<Rightarrow> False | x # xs \<Rightarrow> x = c \<and> startswith xs p)"
  by (cases s) (auto simp: startswith_def)

lemma startswith_append: "startswith s p \<longleftrightarrow> (\<exists>r. s = p @ r)"
  by (simp add: startswith_def prefix_def)

lemma split1_absent: "c \<notin> set s \<Longrightarrow> split1 c s = [s]"
proof -
  assume "c \<notin> set s"
  then have h: "dropWhile (\<lambda>x. x \<noteq> c) s = []" by auto
  show ?thesis unfolding split1_def h by simp
qed

lemma split_chr_nonempty: "split_chr c s \<noteq> []"
  by (induction s) (auto split: list.splits)

lemma split_chr_single: "split_chr c s = [b] \<Longrightarrow> s = b"
proof (induction s arbitrary: b)
  case Nil
  then show ?case by simp
next
  case (Cons x xs)
  show ?case
  proof (cases "x = c")
    case True
    with Cons.prems show ?thesis by (simp add: split_chr_nonempty)
  next
    case False
    with Cons.prems obtain w where "split_chr c xs = [w]" and "b = x # w"
      by (auto split: list.splits simp: split_chr_nonempty)
    with Cons.IH [of w] show ?thesis by simp
  qed
qed

text \<open>Two pieces are the text before and after the only separator.\<close>

lemma split_chr_pair: "split_chr c s = [a, b] \<Longrightarrow> s = a @ c # b"
proof (induction s arbitrary: a)
  case Nil
  then show ?case by simp
next
  case (Cons x xs)
  show ?case
  proof (cases "x = c")
    case True
    with Cons.prems have "a = []" and "split_chr c xs = [b]" by simp_all
    then show ?thesis using True by (simp add: split_chr_single)
  next
    case False
    with Cons.prems obtain w where "split_chr c xs = [w, b]" and "a = x # w"
      by (auto split: list.splits simp: split_chr_nonempty)
    with Cons.IH [of w] show ?thesis by simp
  qed
qed

lemma length_two: "length xs = 2 \<Longrightarrow> \<exists>a b. xs = [a, b]"
  by (cases xs; simp) (metis length_0_conv length_Suc_conv)

subsection \<open>Repository URL resolution\<close>

lemma git_at_not_vcs_url: "startswith s ''git@'' \<Longrightarrow> \<not> startswith_any s VCS_URLS"
  by (clarsimp simp: startswith_append) (simp add: startswith_any_def VCS_URLS_def)

lemma split1_git_at: "startswith s ''git@'' \<Longrightarrow> split1 (CHR ''@'') s = [''git'', drop 4 s]"
  by (clarsimp simp: startswith_append split1_def)

text \<open>
  Claim C2. The resolution table of the spec, entry by entry. Five entries resolve as the
  table says. The entry \<^verbatim>\<open>github:foo/bar\<close> does not: \<^verbatim>\<open>split(':', 1)\<close> gives the hoster
  name without the colon, the keys of \<^verbatim>\<open>hoster_urls\<close> end with the colon, and the lookup
  raises \<^verbatim>\<open>KeyError\<close>.
\<close>

theorem parse_repo_url_table:
  "parse_repo_url ''git@github.com:balderdashy/waterline-criteria.git''
     = Inr ''https://github.com/balderdashy/waterline-criteria.git''
   \<and> parse_repo_url ''gist:11081aaa281'' = Inr ''gist:11081aaa281''
   \<and> parse_repo_url ''expressjs/serve-static'' = Inr ''https://github.com/expressjs/serve-static''
   \<and> parse_repo_url ''https://github.com/chaijs/chai'' = Inr ''https://github.com/chaijs/chai''
   \<and> parse_repo_url ''git@unknownhost.com:foo/bar.git'' = Inr ''git@unknownhost.com:foo/bar.git''
   \<and> parse_repo_url ''github:foo/bar'' = Inl (KeyError ''github'')"
  by (simp add: parse_repo_url_def startswith_any_def VCS_URLS_def split1_def hoster_urls_def)

text \<open>
  Claim C3, as amended. A string that none of the earlier rules takes is resolved by the
  number of pieces \<^verbatim>\<open>split('/')\<close> gives: with exactly two pieces, empty or not, the result
  is \<^verbatim>\<open>https://github.com/\<close> followed by the two pieces joined by a slash; otherwise the
  string is returned unchanged.
\<close>

theorem parse_repo_url_shorthand:
  assumes "\<not> startswith_any s VCS_URLS"
    and "\<not> startswith s ''git@''"
    and "\<not> startswith s ''gist:''"
    and "\<not> startswith_any s [''bitbucket:'', ''gitlab:'', ''github:'']"
  shows "parse_repo_url s =
           Inr (case split_chr (CHR ''/'') s of
                  [owner, repo] \<Rightarrow> ''https://github.com/'' @ owner @ ''/'' @ repo
                | _ \<Rightarrow> s)"
proof (cases "length (split_chr (CHR ''/'') s) = 2")
  case True
  then obtain a b where ab: "split_chr (CHR ''/'') s = [a, b]"
    using length_two by blast
  from split_chr_pair [OF ab] have "s = a @ CHR ''/'' # b" .
  with assms True ab show ?thesis
    by (simp add: parse_repo_url_def del: startswith_Cons)
next
  case False
  then have "(case split_chr (CHR ''/'') s of
                [owner, repo] \<Rightarrow> ''https://github.com/'' @ owner @ ''/'' @ repo
              | _ \<Rightarrow> s) = s"
    by (auto split: list.splits)
  with assms False show ?thesis
    by (simp add: parse_repo_url_def del: startswith_Cons)
qed

theorem parse_repo_url_shorthand_witness:
  "\<not> startswith_any ''foo/'' VCS_URLS \<and> \<not> startswith ''foo/'' ''git@''
   \<and> \<not> startswith ''foo/'' ''gist:''
   \<and> \<not> startswith_any ''foo/'' [''bitbucket:'', ''gitlab:'', ''github:'']
   \<and> parse_repo_url ''foo/'' = Inr ''https://github.com/foo/''"
  using parse_repo_url_shorthand [of "''foo/''"]
  by (simp add: startswith_any_def VCS_URLS_def)

text \<open>
  The claim as stated fails at \<^verbatim>\<open>foo/\<close>: none of the earlier rules takes it, its second
  piece is empty, and it is not returned unchanged.
\<close>

theorem parse_repo_url_empty_segment_counterexample:
  "\<not> startswith_any ''foo/'' VCS_URLS \<and> \<not> startswith ''foo/'' ''git@''
   \<and> \<not> startswith ''foo/'' ''gist:''
   \<and> \<not> startswith_any ''foo/'' [''bitbucket:'', ''gitlab:'', ''github:'']
   \<and> split_chr (CHR ''/'') ''foo/'' = [''foo'', []]
   \<and> parse_repo_url ''foo/'' = Inr ''https://github.com/foo/''
   \<and> parse_repo_url ''foo/'' \<noteq> Inr ''foo/''"
  by (simp add: parse_repo_url_def startswith_any_def VCS_URLS_def)

text \<open>
  Claim C9. A string that starts with \<^verbatim>\<open>git@\<close> and has no colon after the \<^verbatim>\<open>@\<close> is
  not returned: the unpacking of \<^verbatim>\<open>right.split(':', 1)\<close> into host and repo raises
  \<^verbatim>\<open>ValueError\<close>.
\<close>

theorem parse_repo_url_git_at_no_colon:
  assumes "startswith s ''git@''" and "CHR '':'' \<notin> set (drop 4 s)"
  shows "parse_repo_url s = Inl ValueError"
  using assms
  by (simp add: parse_repo_url_def git_at_not_vcs_url split1_git_at split1_absent
      del: startswith_Cons)

theorem parse_repo_url_git_at_no_colon_witness:
  "startswith ''git@github.com'' ''git@'' \<and> CHR '':'' \<notin> set (drop 4 ''git@github.com'')
   \<and> parse_repo_url ''git@github.com'' = Inl ValueError"
  using parse_repo_url_git_at_no_colon [of "''git@github.com''"]
  by simp

subsection \<open>The license mapper\<close>

lemma licenses_loop_appends:
  "licenses_loop repr ls p =
     p\<lparr>asserted_licenses := asserted_licenses p @ concat (map (element_assertions repr) ls)\<rparr>"
proof (induction ls arbitrary: p)
  case Nil
  then show ?case by simp
next
  case (Cons lic ls)
  show ?case
    by (cases lic) (simp_all add: Cons.IH element_assertions_def)
qed

text \<open>
  Claim C5, as amended. Applied to a non-empty string, the license mapper appends exactly
  one assertion equal to that string. Applied to a list, it appends in list order one
  verbatim assertion per string element and one assertion holding the textual
  representation of each non-empty element that is not a string, and skips the empty
  elements that are not strings. Applied to a non-empty value of any other type, it
  appends one assertion holding the textual representation of the whole value. Applied to
  an empty value of any type, it leaves the record unchanged.
\<close>

theorem licensing_mapper_shapes:
  "(s \<noteq> [] \<longrightarrow>
      licensing_mapper repr (JStr s) p =
        Inr (p\<lparr>asserted_licenses := asserted_licenses p @ [AssertedLicense s]\<rparr>))
   \<and> licensing_mapper repr (JList ls) p =
        Inr (p\<lparr>asserted_licenses :=
               asserted_licenses p @ concat (map (element_assertions repr) ls)\<rparr>)
   \<and> (truthy v \<and> \<not> is_string v \<and> \<not> is_list v \<longrightarrow>
        licensing_mapper repr v p =
          Inr (p\<lparr>asserted_licenses := asserted_licenses p @ [AssertedLicense (repr v)]\<rparr>))
   \<and> (\<not> truthy v \<longrightarrow> licensing_mapper repr v p = Inr p)"
proof (intro conjI impI)
  assume "s \<noteq> []"
  then show "licensing_mapper repr (JStr s) p =
        Inr (p\<lparr>asserted_licenses := asserted_licenses p @ [AssertedLicense s]\<rparr>)"
    by (simp add: licensing_mapper_def)
next
  show "licensing_mapper repr (JList ls) p =
        Inr (p\<lparr>asserted_licenses :=
               asserted_licenses p @ concat (map (element_assertions repr) ls)\<rparr>)"
    by (cases ls)
      (simp_all add: licensing_mapper_def licenses_loop_appends del: licenses_loop.simps)
next
  assume "truthy v \<and> \<not> is_string v \<and> \<not> is_list v"
  then show "licensing_mapper repr v p =
          Inr (p\<lparr>asserted_licenses := asserted_licenses p @ [AssertedLicense (repr v)]\<rparr>)"
    by (cases v) (simp_all add: licensing_mapper_def is_string_def is_list_def)
next
  assume "\<not> truthy v"
  then show "licensing_mapper repr v p = Inr p"
    by (simp add: licensing_mapper_def)
qed

theorem licensing_mapper_shapes_witness:
  "licensing_mapper sample_repr (JStr ''MIT'') blank_package =
     Inr (blank_package\<lparr>asserted_licenses := [AssertedLicense ''MIT'']\<rparr>)
   \<and> licensing_mapper sample_repr
        (JList [JStr ''LGPL-2.1'', JNull, JInt 7, JStr ''GPL-3.0+'']) blank_package =
     Inr (blank_package\<lparr>asserted_licenses :=
            [AssertedLicense ''LGPL-2.1'', AssertedLicense ''<repr>'',
             AssertedLicense ''GPL-3.0+'']\<rparr>)
   \<and> licensing_mapper sample_repr (JInt 7) blank_package =
     Inr (blank_package\<lparr>asserted_licenses := [AssertedLicense ''<repr>'']\<rparr>)
   \<and> licensing_mapper sample_repr (JInt 0) blank_package = Inr blank_package"
  using licensing_mapper_shapes [of "''MIT''" sample_repr blank_package
      "[JStr ''LGPL-2.1'', JNull, JInt 7, JStr ''GPL-3.0+'']" "JInt 7"]
    licensing_mapper_shapes [of "''MIT''" sample_repr blank_package "[]" "JInt 0"]
  by (simp add: element_assertions_def is_string_def is_list_def sample_repr_def
      blank_package_def)

text \<open>
  The claim as stated fails at the empty string: it is a string value, and the mapper
  appends nothing.
\<close>

theorem licensing_mapper_empty_string_counterexample:
  "licensing_mapper sample_repr (JStr []) blank_package = Inr blank_package
   \<and> asserted_licenses blank_package = []
   \<and> licensing_mapper sample_repr (JStr []) blank_package
       \<noteq> Inr (blank_package\<lparr>asserted_licenses :=
                  asserted_licenses blank_package @ [AssertedLicense []]\<rparr>)"
  by (simp add: licensing_mapper_def blank_package_def)

subsection \<open>The author mapper\<close>

text \<open>
  Claim C7. An \<^verbatim>\<open>authors\<close> value that is not a list makes the author mapper fail, but
  the failure does not carry the value: the message names \<^verbatim>\<open>person\<close>, which is not a
  local name where the message is formatted (the parameter is \<^verbatim>\<open>persons\<close>), so the
  formatting raises \<^verbatim>\<open>KeyError('person')\<close> before the intended exception exists.
\<close>

theorem author_mapper_not_a_list:
  "author_mapper repr JNull p = Inl (KeyError ''person'')
   \<and> author_mapper repr (JBool b) p = Inl (KeyError ''person'')
   \<and> author_mapper repr (JInt i) p = Inl (KeyError ''person'')
   \<and> author_mapper repr (JFloat r) p = Inl (KeyError ''person'')
   \<and> author_mapper repr (JStr s) p = Inl (KeyError ''person'')
   \<and> author_mapper repr (JObj kvs) p = Inl (KeyError ''person'')"
  by (simp add: author_mapper_def parse_person_def format_locals_def)

subsection \<open>The dependency mapper\<close>

text \<open>
  Claim C6. Two calls of the dependency mapper with distinct kinds on the same record, in
  either order: both succeed, the first call appends its batch to what the record held
  for its kind, and the second call leaves the entries of the first kind as they are
  and appends its own batch to what the record held for the second kind.
\<close>

theorem deps_mapper_accumulates:
  "(\<exists>p1 p2.
      dependencies_mapper (JObj req) p = Inr p1
      \<and> dev_dependencies_mapper (JObj dev) p1 = Inr p2
      \<and> dependencies p1 dep_runtime =
          Some ((case dependencies p dep_runtime of None \<Rightarrow> [] | Some old \<Rightarrow> old)
                @ deps_batch req)
      \<and> dependencies p2 dep_runtime = dependencies p1 dep_runtime
      \<and> dependencies p2 dep_dev =
          Some ((case dependencies p dep_dev of None \<Rightarrow> [] | Some old \<Rightarrow> old)
                @ deps_batch dev))
   \<and> (\<exists>p1 p2.
      dev_dependencies_mapper (JObj dev) p = Inr p1
      \<and> dependencies_mapper (JObj req) p1 = Inr p2
      \<and> dependencies p1 dep_dev =
          Some ((case dependencies p dep_dev of None \<Rightarrow> [] | Some old \<Rightarrow> old)
                @ deps_batch dev)
      \<and> dependencies p2 dep_dev = dependencies p1 dep_dev
      \<and> dependencies p2 dep_runtime =
          Some ((case dependencies p dep_runtime of None \<Rightarrow> [] | Some old \<Rightarrow> old)
                @ deps_batch req))"
  by (simp add: dependencies_mapper_def dev_dependencies_mapper_def deps_mapper_def
      dep_types_def split: option.splits)

theorem deps_mapper_accumulates_witness:
  "\<exists>p1 p2.
      dependencies_mapper (JObj [(''a'', JStr ''^1.0'')]) blank_package = Inr p1
      \<and> dev_dependencies_mapper (JObj [(''b'', JStr ''^2.0'')]) p1 = Inr p2
      \<and> dependencies p2 dep_runtime = Some [Dependency ''a'' (JStr ''^1.0'')]
      \<and> dependencies p2 dep_dev = Some [Dependency ''b'' (JStr ''^2.0'')]"
  using deps_mapper_accumulates
      [of "[(''a'', JStr ''^1.0'')]" blank_package "[(''b'', JStr ''^2.0'')]"]
  by (auto simp: blank_package_def deps_batch_def OrderedDict_def)

subsection \<open>The repository mapper\<close>

lemma keys_od_setitem: "fst ` set (od_setitem od k v) = insert k (fst ` set od)"
  by (induction od k v rule: od_setitem.induct) auto

lemma keys_foldl_od_setitem:
  "fst ` set (foldl (\<lambda>od (k, v). od_setitem od k v) acc pairs) = fst ` set acc \<union> fst ` set pairs"
proof (induction pairs arbitrary: acc)
  case Nil
  then show ?case by simp
next
  case (Cons kv pairs)
  obtain k v where kv: "kv = (k, v)" by (cases kv)
  show ?case by (simp add: kv Cons.IH keys_od_setitem)
qed

lemma keys_OrderedDict: "fst ` set (OrderedDict pairs) = fst ` set pairs"
  by (simp add: OrderedDict_def keys_foldl_od_setitem)

text \<open>\<^verbatim>\<open>d.get(key)\<close> is \<^verbatim>\<open>None\<close> for a key the dictionary does not have.\<close>

lemma od_get_absent: "k \<notin> fst ` set pairs \<Longrightarrow> od_get pairs k = JNull"
proof -
  assume "k \<notin> fst ` set pairs"
  then have "map_of (OrderedDict pairs) k = None"
    by (simp add: map_of_eq_None_iff keys_OrderedDict)
  then show ?thesis by (simp add: od_get_def)
qed

text \<open>The loop over a list that ends with \<open>d\<close> runs the list before \<open>d\<close>, then \<open>d\<close>.\<close>

lemma repos_loop_snoc:
  "repos_loop (ds @ [d]) p =
     (case repos_loop ds p of Inl e \<Rightarrow> Inl e | Inr p' \<Rightarrow> repos_loop [d] p')"
  by (induction ds arbitrary: p) (auto split: json.splits sum.splits)

text \<open>
  The invariant of the loop: the record differs from the initial one in \<open>vcs_tool\<close> and
  \<open>vcs_repository\<close> at most, and these come from the last descriptor of type vcs.
\<close>

lemma repos_loop_last_wins:
  assumes "\<forall>d \<in> set ds. is_object d"
    and "\<forall>d \<in> set ds. is_vcs_descriptor d \<longrightarrow>
           (\<exists>u res. descriptor_url d = JStr u \<and> parse_repo_url u = Inr res)"
  shows "\<exists>p'. repos_loop ds p = Inr p'
           \<and> (\<forall>x y. p'\<lparr>vcs_tool := x, vcs_repository := y\<rparr>
                      = p\<lparr>vcs_tool := x, vcs_repository := y\<rparr>)
           \<and> (filter is_vcs_descriptor ds = [] \<longrightarrow> p' = p)
           \<and> (\<forall>u res. filter is_vcs_descriptor ds \<noteq> []
                  \<and> descriptor_url (last (filter is_vcs_descriptor ds)) = JStr u
                  \<and> parse_repo_url u = Inr res \<longrightarrow>
                 p' = p\<lparr>vcs_tool := Some (vcs_tool_of u), vcs_repository := Some res\<rparr>)"
  using assms
proof (induction ds rule: rev_induct)
  case Nil
  then show ?case by simp
next
  case (snoc d ds)
  from snoc.prems have "\<forall>d \<in> set ds. is_object d"
    and "\<forall>d \<in> set ds. is_vcs_descriptor d \<longrightarrow>
           (\<exists>u res. descriptor_url d = JStr u \<and> parse_repo_url u = Inr res)"
    by auto
  with snoc.IH obtain p' where
    run: "repos_loop ds p = Inr p'"
    and frame: "\<And>x y. p'\<lparr>vcs_tool := x, vcs_repository := y\<rparr>
                        = p\<lparr>vcs_tool := x, vcs_repository := y\<rparr>"
    and none: "filter is_vcs_descriptor ds = [] \<Longrightarrow> p' = p"
    and lastc: "\<And>u res. filter is_vcs_descriptor ds \<noteq> [] \<Longrightarrow>
                  descriptor_url (last (filter is_vcs_descriptor ds)) = JStr u \<Longrightarrow>
                  parse_repo_url u = Inr res \<Longrightarrow>
                 p' = p\<lparr>vcs_tool := Some (vcs_tool_of u), vcs_repository := Some res\<rparr>"
    by blast
  from snoc.prems(1) obtain r where d: "d = JObj r"
    by (cases d) (simp_all add: is_object_def)
  show ?case
  proof (cases "is_vcs_descriptor d")
    case False
    then have nv: "od_get r ''type'' \<noteq> JStr ''vcs''"
      by (simp add: d is_vcs_descriptor_def)
    have "repos_loop (ds @ [d]) p = Inr p'"
      by (simp add: repos_loop_snoc run d nv)
    moreover have "filter is_vcs_descriptor (ds @ [d]) = filter is_vcs_descriptor ds"
      using False by simp
    ultimately show ?thesis
      using frame none lastc by auto
  next
    case True
    then have v: "od_get r ''type'' = JStr ''vcs''"
      by (simp add: d is_vcs_descriptor_def)
    from snoc.prems(2) True obtain u res where
      u: "descriptor_url d = JStr u" and res: "parse_repo_url u = Inr res"
      by auto
    from u have u': "od_get r ''url'' = JStr u"
      by (simp add: d descriptor_url_def)
    have step: "repos_loop (ds @ [d]) p =
                  Inr (p\<lparr>vcs_tool := Some (vcs_tool_of u), vcs_repository := Some res\<rparr>)"
      using frame [where x = "Some (vcs_tool_of u)" and y = "Some res"]
      by (simp add: repos_loop_snoc run d v u' res)
    have lastd: "last (filter is_vcs_descriptor (ds @ [d])) = d"
      and ne: "filter is_vcs_descriptor (ds @ [d]) \<noteq> []"
      using True by simp_all
    show ?thesis
      unfolding step
      using lastd ne u res by auto
  qed
qed

text \<open>The classification of the tool, in terms of list prefixes.\<close>

lemma vcs_tool_of_prefix:
  "vcs_tool_of u =
     (if prefix ''svn'' u then ''svn''
      else if prefix ''hg'' u then ''hg''
      else if prefix ''cvs'' u then ''cvs''
      else ''git'')"
  by (simp only: vcs_tool_of_def startswith_def)

text \<open>
  Claim C4, as amended. For every \<^verbatim>\<open>repositories\<close> value that is a list of descriptor
  objects in which every descriptor of type vcs has a string URL on which the URL
  resolution returns a result, the repository mapper processes only the descriptors whose
  type equals vcs: it returns the initial record when there is none, and otherwise the
  initial record with \<open>vcs_tool\<close> set from the leading prefix of the URL of the last
  descriptor of type vcs (svn gives svn, hg gives hg, cvs gives cvs, anything else gives
  git) and \<open>vcs_repository\<close> set to that URL resolved. Descriptors of any other type leave
  the record unchanged.
\<close>

theorem repository_mapper_last_vcs_wins:
  assumes "\<forall>d \<in> set ds. is_object d"
    and "\<forall>d \<in> set ds. is_vcs_descriptor d \<longrightarrow>
           (\<exists>u res. descriptor_url d = JStr u \<and> parse_repo_url u = Inr res)"
  shows "\<exists>p'. repository_mapper (JList ds) p = Inr p'
           \<and> (filter is_vcs_descriptor ds = [] \<longrightarrow> p' = p)
           \<and> (\<forall>u res. filter is_vcs_descriptor ds \<noteq> []
                  \<and> descriptor_url (last (filter is_vcs_descriptor ds)) = JStr u
                  \<and> parse_repo_url u = Inr res \<longrightarrow>
                 p' = p\<lparr>vcs_tool :=
                          Some (if prefix ''svn'' u then ''svn''
                                else if prefix ''hg'' u then ''hg''
                                else if prefix ''cvs'' u then ''cvs''
                                else ''git''),
                        vcs_repository := Some res\<rparr>)"
proof -
  have run: "repository_mapper (JList ds) p = repos_loop ds p"
    by (cases ds) (simp_all add: repository_mapper_def)
  from repos_loop_last_wins [OF assms, of p] obtain p' where
    "repos_loop ds p = Inr p'"
    and "filter is_vcs_descriptor ds = [] \<longrightarrow> p' = p"
    and "\<forall>u res. filter is_vcs_descriptor ds \<noteq> []
            \<and> descriptor_url (last (filter is_vcs_descriptor ds)) = JStr u
            \<and> parse_repo_url u = Inr res \<longrightarrow>
           p' = p\<lparr>vcs_tool := Some (vcs_tool_of u), vcs_repository := Some res\<rparr>"
    by blast
  then show ?thesis
    unfolding run vcs_tool_of_prefix by blast
qed

lemma sample_repos_get:
  "od_get [(''type'', JStr ''vcs''), (''url'', JStr ''svn://example.org/project'')] ''url''
     = JStr ''svn://example.org/project''"
  "od_get [(''type'', JStr ''vcs''), (''url'', JStr ''https://github.com/Seldaek/monolog'')] ''url''
     = JStr ''https://github.com/Seldaek/monolog''"
  "od_get [(''type'', JStr ''vcs''), (''url'', JStr ''svn://example.org/project'')] ''type''
     = JStr ''vcs''"
  "od_get [(''type'', JStr ''vcs''), (''url'', JStr ''https://github.com/Seldaek/monolog'')] ''type''
     = JStr ''vcs''"
  "od_get [(''type'', JStr ''composer''), (''url'', JStr ''http://packages.example.com'')] ''type''
     = JStr ''composer''"
  by (simp_all add: od_get_def OrderedDict_def)

lemma sample_repos_resolve:
  "parse_repo_url ''svn://example.org/project'' = Inr ''svn://example.org/project''"
  "parse_repo_url ''https://github.com/Seldaek/monolog'' = Inr ''https://github.com/Seldaek/monolog''"
  by (simp_all add: parse_repo_url_def startswith_any_def VCS_URLS_def)

theorem repository_mapper_last_vcs_wins_witness:
  "list_all is_object sample_repos
   \<and> filter is_vcs_descriptor sample_repos =
       [JObj [(''type'', JStr ''vcs''), (''url'', JStr ''https://github.com/Seldaek/monolog'')],
        JObj [(''type'', JStr ''vcs''), (''url'', JStr ''svn://example.org/project'')]]
   \<and> parse_repo_url ''https://github.com/Seldaek/monolog''
       = Inr ''https://github.com/Seldaek/monolog''
   \<and> parse_repo_url ''svn://example.org/project'' = Inr ''svn://example.org/project''
   \<and> repository_mapper (JList sample_repos) blank_package =
       Inr (blank_package\<lparr>vcs_tool := Some ''svn'',
                          vcs_repository := Some ''svn://example.org/project''\<rparr>)"
proof -
  have h1: "\<forall>d \<in> set sample_repos. is_object d"
    by (simp add: sample_repos_def is_object_def)
  have h2: "\<forall>d \<in> set sample_repos. is_vcs_descriptor d \<longrightarrow>
           (\<exists>u res. descriptor_url d = JStr u \<and> parse_repo_url u = Inr res)"
    by (simp add: sample_repos_def is_vcs_descriptor_def descriptor_url_def
        sample_repos_get sample_repos_resolve)
  have f: "filter is_vcs_descriptor sample_repos =
     [JObj [(''type'', JStr ''vcs''), (''url'', JStr ''https://github.com/Seldaek/monolog'')],
      JObj [(''type'', JStr ''vcs''), (''url'', JStr ''svn://example.org/project'')]]"
    by (simp add: sample_repos_def is_vcs_descriptor_def sample_repos_get)
  from repository_mapper_last_vcs_wins [OF h1 h2, of blank_package]
  have "repository_mapper (JList sample_repos) blank_package =
       Inr (blank_package\<lparr>vcs_tool := Some ''svn'',
                          vcs_repository := Some ''svn://example.org/project''\<rparr>)"
    by (auto simp: f descriptor_url_def sample_repos_get sample_repos_resolve)
  then show ?thesis
    using h1 f by (simp add: list_all_iff sample_repos_resolve)
qed

text \<open>
  The claim as stated fails on lists outside these conditions. A descriptor of type vcs
  without a \<^verbatim>\<open>url\<close> key, and one whose URL is \<^verbatim>\<open>git@github.com\<close>, are each the only and
  so the last descriptor of type vcs of their list; the mapper raises and sets nothing.
\<close>

theorem repository_mapper_raises_counterexample:
  "filter is_vcs_descriptor [JObj [(''type'', JStr ''vcs'')]]
       = [JObj [(''type'', JStr ''vcs'')]]
   \<and> repository_mapper (JList [JObj [(''type'', JStr ''vcs'')]]) blank_package
       = Inl AttributeError
   \<and> filter is_vcs_descriptor
        [JObj [(''type'', JStr ''vcs''), (''url'', JStr ''git@github.com'')]]
       = [JObj [(''type'', JStr ''vcs''), (''url'', JStr ''git@github.com'')]]
   \<and> repository_mapper
        (JList [JObj [(''type'', JStr ''vcs''), (''url'', JStr ''git@github.com'')]])
        blank_package
       = Inl ValueError"
  by (simp add: repository_mapper_def is_vcs_descriptor_def od_get_def OrderedDict_def
      parse_repo_url_def startswith_any_def VCS_URLS_def split1_def)

lemma repos_loop_missing_url:
  assumes "JObj r \<in> set ds" and "od_get r ''type'' = JStr ''vcs''"
    and "od_get r ''url'' = JNull"
  shows "\<exists>e. repos_loop ds p = Inl e"
  using assms(1)
proof (induction ds arbitrary: p)
  case Nil
  then show ?case by simp
next
  case (Cons d ds)
  show ?case
  proof (cases "d = JObj r")
    case True
    with assms(2,3) show ?thesis by simp
  next
    case False
    with Cons.prems have "JObj r \<in> set ds" by simp
    then have "\<And>q. \<exists>e. repos_loop ds q = Inl e" by (rule Cons.IH)
    then show ?thesis
      by (auto split: json.splits sum.splits)
  qed
qed

text \<open>
  Claim C10. A \<^verbatim>\<open>repositories\<close> list that contains a descriptor of type vcs without a
  \<^verbatim>\<open>url\<close> key makes the repository mapper raise: the loop either fails before that
  descriptor or reaches it, where \<^verbatim>\<open>repo.get('url')\<close> is \<^verbatim>\<open>None\<close> and has no
  \<^verbatim>\<open>startswith\<close>. No record is returned.
\<close>

theorem repository_mapper_vcs_without_url:
  assumes "JObj r \<in> set ds" and "od_get r ''type'' = JStr ''vcs''"
    and "''url'' \<notin> fst ` set r"
  shows "\<exists>e. repository_mapper (JList ds) p = Inl e"
proof -
  from assms(3) have "od_get r ''url'' = JNull" by (rule od_get_absent)
  with assms(1,2) have "\<exists>e. repos_loop ds p = Inl e" by (rule repos_loop_missing_url)
  moreover from assms(1) have "ds \<noteq> []" by auto
  ultimately show ?thesis by (simp add: repository_mapper_def)
qed

theorem repository_mapper_vcs_without_url_witness:
  "JObj [(''type'', JStr ''vcs'')]
     \<in> set [JObj [(''type'', JStr ''composer''), (''url'', JStr ''http://packages.example.com'')],
            JObj [(''type'', JStr ''vcs'')]]
   \<and> od_get [(''type'', JStr ''vcs'')] ''type'' = JStr ''vcs''
   \<and> ''url'' \<notin> fst ` set [(''type'', JStr ''vcs'')]
   \<and> repository_mapper
        (JList [JObj [(''type'', JStr ''composer''), (''url'', JStr ''http://packages.example.com'')],
                JObj [(''type'', JStr ''vcs'')]]) blank_package = Inl AttributeError"
  using repository_mapper_vcs_without_url [of "[(''type'', JStr ''vcs'')]"
      "[JObj [(''type'', JStr ''composer''), (''url'', JStr ''http://packages.example.com'')],
        JObj [(''type'', JStr ''vcs'')]]" blank_package]
  by (simp add: repository_mapper_def od_get_def OrderedDict_def)

subsection \<open>The parse entry point\<close>

text \<open>
  Claim C8. When the path is recognised as a manifest and the decoding of the file
  raises, \<^verbatim>\<open>parse\<close> raises the same error: there is no handler between the decoding and
  the caller, and the result is neither a record nor absent.
\<close>

theorem parse_propagates_decoding_failure:
  assumes "is_phpcomposer_json E loc" and "json_load E loc = Inl e"
  shows "parse E repr loc = Inl e"
  using assms by (simp add: parse_def)

lemma lower_sample: "lower ''Composer.JSON'' = ''composer.json''"
  by code_simp

theorem parse_propagates_decoding_failure_witness:
  "is_phpcomposer_json (sample_env (Inl UnicodeDecodeError)) ''Composer.JSON''
   \<and> json_load (sample_env (Inl UnicodeDecodeError)) ''Composer.JSON'' = Inl UnicodeDecodeError
   \<and> parse (sample_env (Inl UnicodeDecodeError)) sample_repr ''Composer.JSON''
       = Inl UnicodeDecodeError"
  using parse_propagates_decoding_failure
      [of "sample_env (Inl UnicodeDecodeError)" "''Composer.JSON''" UnicodeDecodeError sample_repr]
  by (simp add: is_phpcomposer_json_def sample_env_def lower_sample)

text \<open>
  Claim C1, as amended. For every manifest in which the key \<^verbatim>\<open>name\<close> or the key
  \<^verbatim>\<open>description\<close> is absent, or whose value is empty as it stands (no trimming),
  \<^verbatim>\<open>parse\<close> returns absent and no error.
\<close>

theorem parse_incomplete_manifest:
  assumes "json_load E loc = Inr (JObj data)"
    and "k = ''name'' \<or> k = ''description''"
    and "k \<notin> fst ` set data \<or> \<not> truthy (od_get data k)"
  shows "parse E repr loc = Inr None"
proof -
  from assms(3) have "\<not> truthy (od_get data k)"
    by (auto simp: od_get_absent)
  with assms(1,2) show ?thesis
    by (auto simp: parse_def)
qed

theorem parse_incomplete_manifest_witness:
  "parse (sample_env (Inr (JObj [(''name'', JStr ''acme/tool''), (''description'', JStr [])])))
      sample_repr ''composer.json'' = Inr None
   \<and> parse (sample_env (Inr (JObj [(''description'', JStr ''A tool'')])))
      sample_repr ''composer.json'' = Inr None"
  using parse_incomplete_manifest
      [of "sample_env (Inr (JObj [(''name'', JStr ''acme/tool''), (''description'', JStr [])]))"
         "''composer.json''" "[(''name'', JStr ''acme/tool''), (''description'', JStr [])]"
         "''description''" sample_repr]
    parse_incomplete_manifest
      [of "sample_env (Inr (JObj [(''description'', JStr ''A tool'')]))"
         "''composer.json''" "[(''description'', JStr ''A tool'')]" "''name''" sample_repr]
  by (simp add: sample_env_def od_get_def OrderedDict_def)

text \<open>
  The claim as stated fails at a name of two spaces: the name is empty after trimming,
  the guard tests the untrimmed value, and \<^verbatim>\<open>parse\<close> returns a record, whose name is
  not set.
\<close>

theorem parse_whitespace_name_counterexample:
  "strip ''  '' = []
   \<and> parse (sample_env (Inr (JObj [(''name'', JStr ''  ''), (''description'', JStr ''A tool'')])))
      sample_repr ''composer.json'' =
     Inr (Some (blank_package\<lparr>location := Some [], metafile_locations := [''composer.json''],
                  summary := JStr ''A tool''\<rparr>))"
  by (simp add: parse_def is_phpcomposer_json_def sample_env_def lower_def lower_chr_def
      od_get_def OrderedDict_def plain_fields_def field_mappers_def setattr_def strip_if_string_def
      strip_def strip_with_def py_isspace_def blank_package_def)

end
